theory Spec2Isabelle
  imports Main
begin

section \<open>Data model of \<open>internal/functions/deploy/deploy.go\<close>\<close>

text \<open>
  Go strings and byte buffers are sequences of bytes; both are \<open>string\<close> here.
  Every interaction of the package with the outside (the remote API, the filesystem,
  the container runtime, the clock) is appended to a trace of events, the way a spy
  client and a spy filesystem would record it. The outside answers through the fields
  of an environment record; every answer may depend on the whole trace so far, so a
  probe may answer 404 on the first attempt and 200 on the next.
\<close>

type_synonym bytes = string

datatype error =
    ConfigError string
  | GlobError string
  | InvalidSlugError
  | NoFunctionsFoundError
  | GetwdError string
  | MkdirError string
  | BindImportMapError string
  | BundleError string
  | OpenEszipError string
  | CompressError string
  | RetrieveError string
  | CreateError string
  | CreateFailed bytes
  | UpdateError string
  | UpdateFailed bytes
  | UnexpectedError bytes
  | ContextError

text \<open>
  \<open>api.V1UpdateAFunctionParams\<close> has the three optional fields below;
  \<open>api.CreateFunctionParams\<close> has the same three and \<open>Slug\<close> and \<open>Name\<close> in
  addition, which the record extension expresses. A Go pointer field is an option.
\<close>

record V1UpdateAFunctionParams =
  VerifyJwt :: "bool option"
  ImportMapPath :: "string option"
  EntrypointPath :: "string option"

record CreateFunctionParams = V1UpdateAFunctionParams +
  Slug :: "string option"
  Name :: "string option"

datatype api_request =
    V1GetAFunction string string
  | CreateFunctionWithBody string "CreateFunctionParams" string bytes
  | V1UpdateAFunctionWithBody string string "V1UpdateAFunctionParams" string bytes

record FunctionResponse =
  Id :: string

text \<open>
  The three generated response types carry the raw body, the status code and one parsed
  field each (\<open>JSON200\<close> for get and update, \<open>JSON201\<close> for create); one record holds
  them all.
\<close>

record api_response =
  StatusCode :: nat
  Body :: bytes
  JSON200 :: "FunctionResponse option"
  JSON201 :: "FunctionResponse option"

datatype event =
    EvApi api_request
  | EvSleep nat
  | EvLoadConfigFS
  | EvGlob string
  | EvGetFunctionConfig string
  | EvGetwd
  | EvMkdirAll string
  | EvRemoveAll string
  | EvBindImportMap string
  | EvDockerRun string "string list" "string list"
  | EvOpen string

type_synonym trace = "event list"

record functionConfig =
  ImportMap :: string
  VerifyJWT :: bool

text \<open>
  The environment: constants and helpers of \<open>internal/utils\<close> whose bodies are outside
  the package (taken as parameters), and the answers of the outside world.
  \<open>api_body_read\<close> is the number of bytes the HTTP transport takes from the request
  body reader during a call. \<open>LoadConfigFS\<close>, \<open>afero_Glob\<close>, \<open>GetFunctionConfig\<close>,
  \<open>fs_MkdirAll\<close>, \<open>BindImportMap\<close> and \<open>fs_Open\<close> are given the filesystem handle
  \<open>fsys\<close> in the source and work through it: \<open>LoadConfigFS\<close> reads the project
  configuration file, and its answer is the error it returns, if any.
\<close>

record env =
  FunctionsDir :: string
  TempDir :: string
  DockerEszipDir :: string
  EdgeRuntimeId :: string
  EdgeRuntimeImage :: string
  DEBUG :: bool
  FuncSlugPattern :: "string \<Rightarrow> bool"
  ToDockerPath :: "string \<Rightarrow> string"
  LoadConfigFS :: "trace \<Rightarrow> string option"
  afero_Glob :: "trace \<Rightarrow> string \<Rightarrow> string + string list"
  GetFunctionConfig :: "trace \<Rightarrow> string \<Rightarrow> string \<Rightarrow> bool option \<Rightarrow> functionConfig"
  os_Getwd :: "trace \<Rightarrow> string + string"
  fs_MkdirAll :: "trace \<Rightarrow> string \<Rightarrow> string option"
  BindImportMap :: "trace \<Rightarrow> string \<Rightarrow> string + (string list \<times> string)"
  DockerRunOnceWithConfig :: "trace \<Rightarrow> string \<Rightarrow> string list \<Rightarrow> string list \<Rightarrow> string option"
  fs_Open :: "trace \<Rightarrow> string \<Rightarrow> string + (string + bytes)"
  brotli_encode :: "bytes \<Rightarrow> bytes"
  api_reply :: "trace \<Rightarrow> api_request \<Rightarrow> string + api_response"
  api_body_read :: "trace \<Rightarrow> api_request \<Rightarrow> nat"
  ctx_Done :: "trace \<Rightarrow> bool"
  exponential_NextBackOff :: "trace \<Rightarrow> nat option"

definition eszipContentType :: string where
  "eszipContentType = ''application/vnd.denoland.eszip''"

definition compressedEszipMagicId :: string where
  "compressedEszipMagicId = ''EZBR''"

definition StatusNotFound :: nat where "StatusNotFound = 404"
definition StatusOK :: nat where "StatusOK = 200"
definition StatusCreated :: nat where "StatusCreated = 201"

section \<open>Paths: \<open>path.Join\<close>, \<open>filepath.Join\<close>, \<open>filepath.Dir\<close>, \<open>filepath.Base\<close>\<close>

text \<open>
  The standard library's path functions for slash-separated paths. \<open>Clean\<close> drops
  empty and \<open>.\<close> elements, resolves \<open>..\<close> against the element before it, drops
  \<open>..\<close> at the start of a rooted path, and returns \<open>.\<close> for an empty result.
\<close>

fun split_path :: "string \<Rightarrow> string list" where
  "split_path [] = [[]]"
| "split_path (c # cs) =
     (if c = CHR ''/'' then [] # split_path cs
      else (case split_path cs of [] \<Rightarrow> [[c]] | x # xs \<Rightarrow> (c # x) # xs))"

fun join_path :: "string list \<Rightarrow> string" where
  "join_path [] = []"
| "join_path [x] = x"
| "join_path (x # y # zs) = x @ CHR ''/'' # join_path (y # zs)"

fun resolve_dots :: "bool \<Rightarrow> string list \<Rightarrow> string list \<Rightarrow> string list" where
  "resolve_dots rooted acc [] = acc"
| "resolve_dots rooted acc (e # es) =
     (if e = [] \<or> e = ''.'' then resolve_dots rooted acc es
      else if e = ''..'' then
        (if acc \<noteq> [] \<and> last acc \<noteq> ''..'' then resolve_dots rooted (butlast acc) es
         else if rooted then resolve_dots rooted acc es
         else resolve_dots rooted (acc @ [e]) es)
      else resolve_dots rooted (acc @ [e]) es)"

definition path_Clean :: "string \<Rightarrow> string" where
  "path_Clean p =
     (if p = [] then ''.''
      else let rooted = (hd p = CHR ''/'');
               out = (if rooted then ''/'' else []) @ join_path (resolve_dots rooted [] (split_path p))
           in if out = [] then ''.'' else out)"

definition path_Join :: "string list \<Rightarrow> string" where
  "path_Join elems =
     (let xs = filter (\<lambda>e. e \<noteq> []) elems
      in if xs = [] then [] else path_Clean (join_path xs))"

definition filepath_Join :: "string list \<Rightarrow> string" where
  "filepath_Join elems = path_Join elems"

definition filepath_Dir :: "string \<Rightarrow> string" where
  "filepath_Dir p = path_Clean (rev (dropWhile (\<lambda>c. c \<noteq> CHR ''/'') (rev p)))"

definition filepath_Base :: "string \<Rightarrow> string" where
  "filepath_Base p =
     (if p = [] then ''.''
      else let p1 = dropWhile (\<lambda>c. c = CHR ''/'') (rev p);
               p2 = rev (takeWhile (\<lambda>c. c \<noteq> CHR ''/'') p1)
           in if p2 = [] then ''/'' else p2)"

section \<open>The upload protocol: \<open>deployFunction\<close>\<close>

definition api_call :: "env \<Rightarrow> api_request \<Rightarrow> trace \<Rightarrow> (string + api_response) \<times> trace" where
  "api_call E req tr = (api_reply E tr req, tr @ [EvApi req])"

text \<open>
  \<open>functionBody\<close> is an \<open>io.Reader\<close>: the argument is what is left to read from it, and
  the second component of the result is what is left after the call. The two lines the
  function prints after a success go to standard output and are not part of the trace.
\<close>

definition deployFunction ::
  "env \<Rightarrow> string \<Rightarrow> string \<Rightarrow> string \<Rightarrow> string \<Rightarrow> bool \<Rightarrow> bytes \<Rightarrow> trace
     \<Rightarrow> error option \<times> bytes \<times> trace" where
  "deployFunction E projectRef slug entrypointUrl importMapUrl verifyJWT functionBody tr =
     (case api_call E (V1GetAFunction projectRef slug) tr of
        (Inl err, tr1) \<Rightarrow> (Some (RetrieveError err), functionBody, tr1)
      | (Inr resp, tr1) \<Rightarrow>
          if StatusCode resp = StatusNotFound then
            (let req = CreateFunctionWithBody projectRef
                         \<lparr>VerifyJwt = Some verifyJWT, ImportMapPath = Some importMapUrl,
                          EntrypointPath = Some entrypointUrl, Slug = Some slug, Name = Some slug\<rparr>
                         eszipContentType functionBody;
                 rest = drop (api_body_read E tr1 req) functionBody
             in case api_call E req tr1 of
                  (Inl err, tr2) \<Rightarrow> (Some (CreateError err), rest, tr2)
                | (Inr resp2, tr2) \<Rightarrow>
                    if JSON201 resp2 = None then (Some (CreateFailed (Body resp2)), rest, tr2)
                    else (None, rest, tr2))
          else if StatusCode resp = StatusOK then
            (let req = V1UpdateAFunctionWithBody projectRef slug
                         \<lparr>VerifyJwt = Some verifyJWT, ImportMapPath = Some importMapUrl,
                          EntrypointPath = Some entrypointUrl\<rparr>
                         eszipContentType functionBody;
                 rest = drop (api_body_read E tr1 req) functionBody
             in case api_call E req tr1 of
                  (Inl err, tr2) \<Rightarrow> (Some (UpdateError err), rest, tr2)
                | (Inr resp2, tr2) \<Rightarrow>
                    if JSON200 resp2 = None then (Some (UpdateFailed (Body resp2)), rest, tr2)
                    else (None, rest, tr2))
          else (Some (UnexpectedError (Body resp)), functionBody, tr1))"

section \<open>Retrying: \<open>backoff.Retry\<close> under the policy of \<open>deployOne\<close>\<close>

text \<open>
  The policy is \<open>WithContext (WithMaxRetries (NewExponentialBackOff ()) 3) ctx\<close>.
  \<open>backOffTries\<close> is the state of \<open>WithMaxRetries\<close>. Asking the policy for the next
  delay gives \<open>None\<close> for the library's \<open>Stop\<close>: when the context is done, when the
  retries are used up, or when the exponential back-off itself stops. The delay the
  exponential back-off chooses is randomised and is an answer of the environment.
\<close>

record backOffTries =
  maxTries :: nat
  numTries :: nat

definition NextBackOff :: "env \<Rightarrow> backOffTries \<Rightarrow> trace \<Rightarrow> nat option \<times> backOffTries" where
  "NextBackOff E b tr =
     (if ctx_Done E tr then (None, b)
      else if maxTries b = 0 then (None, b)
      else if maxTries b \<le> numTries b then (None, b)
      else (exponential_NextBackOff E tr, b\<lparr>numTries := numTries b + 1\<rparr>))"

text \<open>
  The loop of \<open>backoff.Retry\<close>: run the operation; on an error ask the policy; on
  \<open>Stop\<close> return the context's error if there is one, else the operation's; otherwise
  sleep, give up if the context ends during the sleep, and go round again. The operation
  reads from the one shared body reader, whose remaining content is threaded through.
  (The library also stops at an error of its type \<open>PermanentError\<close>; \<open>deployFunction\<close>
  makes none.)
\<close>

function Retry_loop ::
  "env \<Rightarrow> (bytes \<Rightarrow> trace \<Rightarrow> error option \<times> bytes \<times> trace) \<Rightarrow> backOffTries \<Rightarrow> bytes \<Rightarrow> trace
     \<Rightarrow> error option \<times> bytes \<times> trace" where
  "Retry_loop E operation b buf tr =
     (case operation buf tr of
        (None, buf1, tr1) \<Rightarrow> (None, buf1, tr1)
      | (Some err, buf1, tr1) \<Rightarrow>
          (case NextBackOff E b tr1 of
             (None, b1) \<Rightarrow>
               if ctx_Done E tr1 then (Some ContextError, buf1, tr1) else (Some err, buf1, tr1)
           | (Some d, b1) \<Rightarrow>
               if ctx_Done E (tr1 @ [EvSleep d]) then (Some ContextError, buf1, tr1 @ [EvSleep d])
               else Retry_loop E operation b1 buf1 (tr1 @ [EvSleep d])))"
  by pat_completeness auto
termination
  by (relation "measure (\<lambda>(E, operation, b, buf, tr). maxTries b - numTries b)")
     (auto simp: NextBackOff_def split: if_splits)

definition backoff_Retry ::
  "env \<Rightarrow> (bytes \<Rightarrow> trace \<Rightarrow> error option \<times> bytes \<times> trace) \<Rightarrow> backOffTries \<Rightarrow> bytes \<Rightarrow> trace
     \<Rightarrow> error option \<times> bytes \<times> trace" where
  "backoff_Retry E operation b buf tr = Retry_loop E operation (b\<lparr>numTries := 0\<rparr>) buf tr"

section \<open>Building the artifact: \<open>bundleFunction\<close>\<close>

record eszipFunction =
  compressedBody :: bytes
  entrypointPath :: string
  importMapPath :: string

text \<open>
  Lines 153 to 168: open the bundler's output, start the buffer with the magic tag,
  copy the file through the brotli writer (closed on return, which flushes into the
  same buffer).
\<close>

definition compress_eszip :: "env \<Rightarrow> string \<Rightarrow> eszipFunction \<Rightarrow> trace \<Rightarrow> (error + eszipFunction) \<times> trace" where
  "compress_eszip E hostOutputDir result tr =
     (let file = filepath_Join [hostOutputDir, ''output.eszip''];
          tr1 = tr @ [EvOpen file]
      in case fs_Open E tr file of
           Inl err \<Rightarrow> (Inl (OpenEszipError err), tr1)
         | Inr (Inl err) \<Rightarrow> (Inl (CompressError err), tr1)
         | Inr (Inr eszipBytes) \<Rightarrow>
             (Inr (result\<lparr>compressedBody := compressedEszipMagicId @ brotli_encode E eszipBytes\<rparr>), tr1))"

text \<open>Lines 103 to 151: paths, command line, the optional import map, the container run.\<close>

definition run_bundler :: "env \<Rightarrow> string \<Rightarrow> string \<Rightarrow> string \<Rightarrow> string \<Rightarrow> trace \<Rightarrow> (error + eszipFunction) \<times> trace" where
  "run_bundler E slug hostImportMapPath cwd hostOutputDir tr =
     (let hostFuncDir = filepath_Join [cwd, FunctionsDir E];
          dockerFuncDir = ToDockerPath E hostFuncDir;
          outputPath = DockerEszipDir E @ ''/output.eszip'';
          binds = [EdgeRuntimeId E @ '':/root/.cache/deno:rw'',
                   hostFuncDir @ '':'' @ dockerFuncDir @ '':ro'',
                   filepath_Join [cwd, hostOutputDir] @ '':'' @ DockerEszipDir E @ '':rw''];
          result = \<lparr>compressedBody = [],
                    entrypointPath = path_Join [dockerFuncDir, slug, ''index.ts''],
                    importMapPath = path_Join [dockerFuncDir, ''import_map.json'']\<rparr>;
          cmd = [''bundle'', ''--entrypoint'', entrypointPath result, ''--output'', outputPath];
          cmd1 = (if DEBUG E then cmd @ [''--verbose''] else cmd)
      in case (if hostImportMapPath \<noteq> [] then
                 (case BindImportMap E tr hostImportMapPath of
                    Inl err \<Rightarrow> Inl (BindImportMapError err, tr @ [EvBindImportMap hostImportMapPath])
                  | Inr (modules, dockerImportMapPath) \<Rightarrow>
                      Inr (binds @ modules,
                           result\<lparr>importMapPath := dockerImportMapPath\<rparr>,
                           cmd1 @ [''--import-map'', dockerImportMapPath],
                           tr @ [EvBindImportMap hostImportMapPath]))
               else Inr (binds, result, cmd1, tr)) of
           Inl (err, tr1) \<Rightarrow> (Inl err, tr1)
         | Inr (binds2, result2, cmd2, tr1) \<Rightarrow>
             (case DockerRunOnceWithConfig E tr1 (EdgeRuntimeImage E) cmd2 binds2 of
                Some err \<Rightarrow>
                  (Inl (BundleError err), tr1 @ [EvDockerRun (EdgeRuntimeImage E) cmd2 binds2])
              | None \<Rightarrow>
                  compress_eszip E hostOutputDir result2
                    (tr1 @ [EvDockerRun (EdgeRuntimeImage E) cmd2 binds2])))"

text \<open>
  Lines 85 to 101: working directory, the temporary output directory, and its deferred
  removal, which runs on every return after the directory was made; a failure to remove
  is printed and changes nothing.
\<close>

definition bundleFunction :: "env \<Rightarrow> string \<Rightarrow> string \<Rightarrow> trace \<Rightarrow> (error + eszipFunction) \<times> trace" where
  "bundleFunction E slug hostImportMapPath tr =
     (case os_Getwd E tr of
        Inl err \<Rightarrow> (Inl (GetwdError err), tr @ [EvGetwd])
      | Inr cwd \<Rightarrow>
          (let hostOutputDir = filepath_Join [TempDir E, ''.output_'' @ slug]
           in case fs_MkdirAll E (tr @ [EvGetwd]) hostOutputDir of
                Some err \<Rightarrow> (Inl (MkdirError err), tr @ [EvGetwd, EvMkdirAll hostOutputDir])
              | None \<Rightarrow>
                  (case run_bundler E slug hostImportMapPath cwd hostOutputDir
                          (tr @ [EvGetwd, EvMkdirAll hostOutputDir]) of
                     (res, tr1) \<Rightarrow> (res, tr1 @ [EvRemoveAll hostOutputDir]))))"

section \<open>Orchestration: \<open>deployOne\<close>, \<open>deployAll\<close>\<close>

definition deployOne :: "env \<Rightarrow> string \<Rightarrow> string \<Rightarrow> string \<Rightarrow> bool option \<Rightarrow> trace \<Rightarrow> error option \<times> trace" where
  "deployOne E slug projectRef importMapPath_arg noVerifyJWT tr =
     (let fc = GetFunctionConfig E tr slug importMapPath_arg noVerifyJWT
      in case bundleFunction E slug (ImportMap fc) (tr @ [EvGetFunctionConfig slug]) of
           (Inl err, tr1) \<Rightarrow> (Some err, tr1)
         | (Inr eszip, tr1) \<Rightarrow>
             (case backoff_Retry E
                     (deployFunction E projectRef slug
                        (''file://'' @ entrypointPath eszip)
                        (''file://'' @ importMapPath eszip)
                        (VerifyJWT fc))
                     \<lparr>maxTries = 3, numTries = 0\<rparr>
                     (compressedBody eszip) tr1 of
                (res, buf, tr2) \<Rightarrow> (res, tr2)))"

fun deployAll :: "env \<Rightarrow> string list \<Rightarrow> string \<Rightarrow> string \<Rightarrow> bool option \<Rightarrow> trace \<Rightarrow> error option \<times> trace" where
  "deployAll E [] projectRef importMapPath_arg noVerifyJWT tr = (None, tr)"
| "deployAll E (slug # slugs) projectRef importMapPath_arg noVerifyJWT tr =
     (case deployOne E slug projectRef importMapPath_arg noVerifyJWT tr of
        (Some err, tr1) \<Rightarrow> (Some err, tr1)
      | (None, tr1) \<Rightarrow> deployAll E slugs projectRef importMapPath_arg noVerifyJWT tr1)"

section \<open>Entry points: \<open>GetFunctionSlugs\<close>, \<open>Run\<close>, \<open>RunDefault\<close>\<close>

definition GetFunctionSlugs :: "env \<Rightarrow> trace \<Rightarrow> (error + string list) \<times> trace" where
  "GetFunctionSlugs E tr =
     (let pattern = filepath_Join [FunctionsDir E, ''*'', ''index.ts'']
      in case afero_Glob E tr pattern of
           Inl err \<Rightarrow> (Inl (GlobError err), tr @ [EvGlob pattern])
         | Inr paths \<Rightarrow>
             (Inr (filter (FuncSlugPattern E) (map (\<lambda>p. filepath_Base (filepath_Dir p)) paths)),
              tr @ [EvGlob pattern]))"

text \<open>
  Modelled from the spec: \<open>utils.ValidateFunctionSlug\<close>, whose body is in
  \<open>internal/utils\<close>. The spec says an explicit slug is validated against the same
  naming pattern as a discovered one and that a failing slug is an invalid-slug error.
\<close>

definition ValidateFunctionSlug :: "env \<Rightarrow> string \<Rightarrow> error option" where
  "ValidateFunctionSlug E slug = (if FuncSlugPattern E slug then None else Some InvalidSlugError)"

text \<open>The loop of lines 43 to 47: the first slug that fails validation ends it.\<close>

fun validate_slugs :: "env \<Rightarrow> string list \<Rightarrow> error option" where
  "validate_slugs E [] = None"
| "validate_slugs E (slug # slugs) =
     (case ValidateFunctionSlug E slug of Some err \<Rightarrow> Some err | None \<Rightarrow> validate_slugs E slugs)"

definition Run :: "env \<Rightarrow> string list \<Rightarrow> string \<Rightarrow> bool option \<Rightarrow> string \<Rightarrow> trace \<Rightarrow> error option \<times> trace" where
  "Run E slugs projectRef noVerifyJWT importMapPath_arg tr =
     (case LoadConfigFS E tr of
        Some err \<Rightarrow> (Some (ConfigError err), tr @ [EvLoadConfigFS])
      | None \<Rightarrow>
          (case (if length slugs = 0 then GetFunctionSlugs E (tr @ [EvLoadConfigFS])
                 else (case validate_slugs E slugs of
                         Some err \<Rightarrow> (Inl err, tr @ [EvLoadConfigFS])
                       | None \<Rightarrow> (Inr slugs, tr @ [EvLoadConfigFS]))) of
             (Inl err, tr1) \<Rightarrow> (Some err, tr1)
           | (Inr slugs1, tr1) \<Rightarrow>
               if length slugs1 = 0 then (Some NoFunctionsFoundError, tr1)
               else deployAll E slugs1 projectRef importMapPath_arg noVerifyJWT tr1))"

definition RunDefault :: "env \<Rightarrow> string \<Rightarrow> trace \<Rightarrow> error option \<times> trace" where
  "RunDefault E projectRef tr =
     (case GetFunctionSlugs E tr of
        (Inl err, tr1) \<Rightarrow> (Some err, tr1)
      | (Inr slugs, tr1) \<Rightarrow>
          if length slugs = 0 then (None, tr1)
          else deployAll E slugs projectRef [] None tr1)"

section \<open>Reading traces\<close>

fun is_api :: "event \<Rightarrow> bool" where
  "is_api (EvApi req) = True"
| "is_api _ = False"

fun is_probe :: "event \<Rightarrow> bool" where
  "is_probe (EvApi (V1GetAFunction p s)) = True"
| "is_probe _ = False"

fun is_create :: "event \<Rightarrow> bool" where
  "is_create (EvApi (CreateFunctionWithBody p params ct b)) = True"
| "is_create _ = False"

fun is_update :: "event \<Rightarrow> bool" where
  "is_update (EvApi (V1UpdateAFunctionWithBody p s params ct b)) = True"
| "is_update _ = False"

fun is_sleep :: "event \<Rightarrow> bool" where
  "is_sleep (EvSleep d) = True"
| "is_sleep _ = False"

fun is_bundler_run :: "event \<Rightarrow> bool" where
  "is_bundler_run (EvDockerRun img cmd binds) = True"
| "is_bundler_run _ = False"

text \<open>The import-map locator and the request body a create or update call carries.\<close>

fun sent_import_map :: "event \<Rightarrow> string option" where
  "sent_import_map (EvApi (CreateFunctionWithBody p params ct b)) = ImportMapPath params"
| "sent_import_map (EvApi (V1UpdateAFunctionWithBody p s params ct b)) = ImportMapPath params"
| "sent_import_map _ = None"

fun sent_body :: "event \<Rightarrow> bytes option" where
  "sent_body (EvApi (CreateFunctionWithBody p params ct b)) = Some b"
| "sent_body (EvApi (V1UpdateAFunctionWithBody p s params ct b)) = Some b"
| "sent_body _ = None"

text \<open>
  One upload attempt as a spy client sees it: a probe for the slug, then at most one
  call, a create or an update.
\<close>

definition attempt_ok :: "string \<Rightarrow> string \<Rightarrow> event list \<Rightarrow> bool" where
  "attempt_ok p s evs =
     (case evs of
        [e] \<Rightarrow> e = EvApi (V1GetAFunction p s)
      | [e, w] \<Rightarrow> e = EvApi (V1GetAFunction p s) \<and> (is_create w \<or> is_update w)
      | _ \<Rightarrow> False)"

text \<open>
  A retried upload as a spy client sees it: every attempt opens with a probe for the
  slug, makes at most one create or update call, and is followed by nothing, or by a
  sleep that ends the trace, or by a sleep and another attempt.
\<close>

fun retry_trace_ok :: "string \<Rightarrow> string \<Rightarrow> event list \<Rightarrow> bool"
and after_probe :: "string \<Rightarrow> string \<Rightarrow> event list \<Rightarrow> bool"
and after_write :: "string \<Rightarrow> string \<Rightarrow> event list \<Rightarrow> bool" where
  "retry_trace_ok p s [] = False"
| "retry_trace_ok p s (e # evs) = (e = EvApi (V1GetAFunction p s) \<and> after_probe p s evs)"
| "after_probe p s [] = True"
| "after_probe p s (e # evs) =
     (if is_create e \<or> is_update e then after_write p s evs else after_write p s (e # evs))"
| "after_write p s [] = True"
| "after_write p s (e # evs) = (is_sleep e \<and> (evs = [] \<or> retry_trace_ok p s evs))"


section \<open>Concrete environments\<close>

text \<open>
  Modelled from the spec: the naming pattern \<open>utils.FuncSlugPattern\<close>, declared in
  \<open>internal/utils\<close>. The spec says a slug is non-empty and made of alphanumeric
  characters, hyphens and underscores. Only the concrete environments below use it.
\<close>

definition slug_char :: "char \<Rightarrow> bool" where
  "slug_char c = (c \<in> set ''ABCDEFGHIJKLMNOPQRSTUVWXYZabcdefghijklmnopqrstuvwxyz0123456789_-'')"

definition slug_pattern_spec :: "string \<Rightarrow> bool" where
  "slug_pattern_spec s = (s \<noteq> [] \<and> list_all slug_char s)"

text \<open>A remote that answers the n-th API call of a run with the n-th entry of a script.\<close>

definition scripted :: "(string + api_response) list \<Rightarrow> trace \<Rightarrow> api_request \<Rightarrow> string + api_response" where
  "scripted rs tr req =
     (let i = length (filter is_api tr)
      in if i < length rs then rs ! i else Inl ''connection refused'')"

text \<open>A transport that sends the whole request body, as one that completes a request does.\<close>

fun reads_whole_body :: "trace \<Rightarrow> api_request \<Rightarrow> nat" where
  "reads_whole_body tr (V1GetAFunction p s) = 0"
| "reads_whole_body tr (CreateFunctionWithBody p params ct b) = length b"
| "reads_whole_body tr (V1UpdateAFunctionWithBody p s params ct b) = length b"

text \<open>A stand-in codec for brotli: one header byte, then the input stored as it is.\<close>

definition stored_encode :: "bytes \<Rightarrow> bytes" where
  "stored_encode x = CHR ''S'' # x"

definition stored_decode :: "bytes \<Rightarrow> bytes" where
  "stored_decode y = tl y"

definition reply :: "nat \<Rightarrow> bytes \<Rightarrow> string + api_response" where
  "reply code body =
     Inr \<lparr>StatusCode = code, Body = body,
          JSON200 = (if code = 200 then Some \<lparr>Id = ''1''\<rparr> else None),
          JSON201 = (if code = 201 then Some \<lparr>Id = ''1''\<rparr> else None)\<rparr>"

definition env0 :: env where
  "env0 =
     \<lparr>FunctionsDir = ''supabase/functions'',
      TempDir = ''supabase/.temp'',
      DockerEszipDir = ''/root/eszips'',
      EdgeRuntimeId = ''supabase_edge_runtime_demo'',
      EdgeRuntimeImage = ''edge-runtime'',
      DEBUG = False,
      FuncSlugPattern = slug_pattern_spec,
      ToDockerPath = (\<lambda>p. p),
      LoadConfigFS = (\<lambda>tr. None),
      afero_Glob = (\<lambda>tr pat. Inr []),
      GetFunctionConfig = (\<lambda>tr slug imp nv.
         \<lparr>ImportMap = imp, VerifyJWT = (case nv of None \<Rightarrow> True | Some b \<Rightarrow> \<not> b)\<rparr>),
      os_Getwd = (\<lambda>tr. Inr ''/w''),
      fs_MkdirAll = (\<lambda>tr p. None),
      BindImportMap = (\<lambda>tr p. Inr ([p @ '':'' @ p @ '':ro''], p)),
      DockerRunOnceWithConfig = (\<lambda>tr img cmd binds. None),
      fs_Open = (\<lambda>tr p. Inr (Inr ''ESZIP'')),
      brotli_encode = stored_encode,
      api_reply = scripted [],
      api_body_read = reads_whole_body,
      ctx_Done = (\<lambda>tr. False),
      exponential_NextBackOff = (\<lambda>tr. Some 500)\<rparr>"

text \<open>The function is absent: the probe answers 404 and the create answers 201.\<close>

definition env_new :: env where
  "env_new = env0\<lparr>api_reply := scripted [reply 404 ''{}'', reply 201 ''{id:1}'']\<rparr>"

text \<open>The function exists: the probe answers 200 and the update answers 200.\<close>

definition env_existing :: env where
  "env_existing = env0\<lparr>api_reply := scripted [reply 200 ''{id:1}'', reply 200 ''{id:1}'']\<rparr>"

text \<open>The service is unavailable: every call answers 503.\<close>

definition env_unavailable :: env where
  "env_unavailable = env0\<lparr>api_reply := (\<lambda>tr req. reply 503 ''unavailable'')\<rparr>"

text \<open>The first create answers 503 after the body was sent; the second attempt succeeds.\<close>

definition env_flaky :: env where
  "env_flaky = env0\<lparr>api_reply := scripted
     [reply 404 ''{}'', reply 503 ''unavailable'', reply 404 ''{}'', reply 201 ''{id:1}'']\<rparr>"

text \<open>
  The function exists; the first update answers 503 after the body was sent; the second
  attempt succeeds.
\<close>

definition env_flaky_update :: env where
  "env_flaky_update = env0\<lparr>api_reply := scripted
     [reply 200 ''{id:1}'', reply 503 ''unavailable'', reply 200 ''{id:1}'', reply 200 ''{id:1}'']\<rparr>"

text \<open>The project configuration cannot be loaded.\<close>

definition env_no_config :: env where
  "env_no_config = env0\<lparr>LoadConfigFS := (\<lambda>tr. Some ''cannot read config'')\<rparr>"


text \<open>A source tree with two function directories and one directory that is no function.\<close>

definition env_tree :: env where
  "env_tree = env0\<lparr>afero_Glob := (\<lambda>tr pat.
     Inr [''supabase/functions/a.b/index.ts'', ''supabase/functions/bye/index.ts'',
          ''supabase/functions/hello/index.ts''])\<rparr>"

section \<open>Reading responses\<close>

text \<open>
  What the claims call a 201, or a 200, with a parsed success body; and the way the
  generated client fills the parsed fields: \<open>JSON201\<close> only from a response with status
  201, \<open>JSON200\<close> only from one with status 200.
\<close>

definition created_ok :: "api_response \<Rightarrow> bool" where
  "created_ok r = (StatusCode r = StatusCreated \<and> JSON201 r \<noteq> None)"

definition updated_ok :: "api_response \<Rightarrow> bool" where
  "updated_ok r = (StatusCode r = StatusOK \<and> JSON200 r \<noteq> None)"

definition parsed_by_status :: "api_response \<Rightarrow> bool" where
  "parsed_by_status r =
     ((JSON201 r = None \<or> StatusCode r = StatusCreated) \<and> (JSON200 r = None \<or> StatusCode r = StatusOK))"

section \<open>Clean paths\<close>

text \<open>
  A plain name is a directory entry's name: not empty, not \<open>.\<close> or \<open>..\<close>, without a
  slash. A clean path is one or more plain names separated by single slashes, with or
  without a leading slash: the form \<open>Clean\<close> leaves a path without \<open>..\<close> in, and the form
  of a working directory and of the constants of \<open>internal/utils\<close>.
\<close>

definition plain_name :: "string \<Rightarrow> bool" where
  "plain_name n = (n \<noteq> [] \<and> n \<noteq> ''.'' \<and> n \<noteq> ''..'' \<and> CHR ''/'' \<notin> set n)"

definition clean_path :: "string \<Rightarrow> bool" where
  "clean_path d =
     (case d of
        [] \<Rightarrow> False
      | c # cs \<Rightarrow> list_all plain_name (split_path (if c = CHR ''/'' then cs else d)))"

section \<open>Properties of the retry loop\<close>

declare Retry_loop.simps [simp del]

lemma deployFunction_attempt:
  "deployFunction E p s eu iu v body tr = (res, rest, tr') \<Longrightarrow> \<exists>a. tr' = tr @ a \<and> attempt_ok p s a"
  by (auto simp: deployFunction_def api_call_def attempt_ok_def Let_def
           split: sum.splits if_splits prod.splits)

lemma attempt_alone: "attempt_ok p s a \<Longrightarrow> retry_trace_ok p s a"
  by (auto simp: attempt_ok_def split: list.splits)

lemma attempt_sleep: "attempt_ok p s a \<Longrightarrow> retry_trace_ok p s (a @ [EvSleep d])"
  by (auto simp: attempt_ok_def split: list.splits)

lemma attempt_more:
  "attempt_ok p s a \<Longrightarrow> retry_trace_ok p s evs \<Longrightarrow> retry_trace_ok p s (a @ EvSleep d # evs)"
  by (auto simp: attempt_ok_def split: list.splits)

text \<open>The four ways one round of the retry loop can go.\<close>

lemma Retry_loop_success:
  "operation buf tr = (None, buf1, tr1) \<Longrightarrow> Retry_loop E operation b buf tr = (None, buf1, tr1)"
  by (simp add: Retry_loop.simps[of E operation b buf tr])

lemma Retry_loop_stop:
  "operation buf tr = (Some err, buf1, tr1) \<Longrightarrow> NextBackOff E b tr1 = (None, b1) \<Longrightarrow>
   Retry_loop E operation b buf tr =
     (if ctx_Done E tr1 then (Some ContextError, buf1, tr1) else (Some err, buf1, tr1))"
  by (simp add: Retry_loop.simps[of E operation b buf tr])

lemma Retry_loop_cancelled:
  "operation buf tr = (Some err, buf1, tr1) \<Longrightarrow> NextBackOff E b tr1 = (Some d, b1) \<Longrightarrow>
   ctx_Done E (tr1 @ [EvSleep d]) \<Longrightarrow>
   Retry_loop E operation b buf tr = (Some ContextError, buf1, tr1 @ [EvSleep d])"
  by (simp add: Retry_loop.simps[of E operation b buf tr])

lemma Retry_loop_again:
  "operation buf tr = (Some err, buf1, tr1) \<Longrightarrow> NextBackOff E b tr1 = (Some d, b1) \<Longrightarrow>
   \<not> ctx_Done E (tr1 @ [EvSleep d]) \<Longrightarrow>
   Retry_loop E operation b buf tr = Retry_loop E operation b1 buf1 (tr1 @ [EvSleep d])"
  by (simp add: Retry_loop.simps[of E operation b buf tr])

text \<open>An induction rule for the retry loop that follows those four ways.\<close>

lemma Retry_loop_rounds [consumes 1, case_names success stop cancelled again]:
  assumes run: "Retry_loop E operation b buf tr = out"
    and success: "\<And>b buf tr buf1 tr1. operation buf tr = (None, buf1, tr1) \<Longrightarrow>
           P b buf tr (None, buf1, tr1)"
    and stop: "\<And>b buf tr err buf1 tr1 b1. operation buf tr = (Some err, buf1, tr1) \<Longrightarrow>
           NextBackOff E b tr1 = (None, b1) \<Longrightarrow>
           P b buf tr (if ctx_Done E tr1 then (Some ContextError, buf1, tr1) else (Some err, buf1, tr1))"
    and cancelled: "\<And>b buf tr err buf1 tr1 d b1. operation buf tr = (Some err, buf1, tr1) \<Longrightarrow>
           NextBackOff E b tr1 = (Some d, b1) \<Longrightarrow> ctx_Done E (tr1 @ [EvSleep d]) \<Longrightarrow>
           P b buf tr (Some ContextError, buf1, tr1 @ [EvSleep d])"
    and again: "\<And>b buf tr err buf1 tr1 d b1 out. operation buf tr = (Some err, buf1, tr1) \<Longrightarrow>
           NextBackOff E b tr1 = (Some d, b1) \<Longrightarrow> \<not> ctx_Done E (tr1 @ [EvSleep d]) \<Longrightarrow>
           Retry_loop E operation b1 buf1 (tr1 @ [EvSleep d]) = out \<Longrightarrow>
           P b1 buf1 (tr1 @ [EvSleep d]) out \<Longrightarrow> P b buf tr out"
  shows "P b buf tr out"
  using run
proof (induction "maxTries b - numTries b" arbitrary: b buf tr out rule: less_induct)
  case less
  obtain r1 buf1 tr1 where op: "operation buf tr = (r1, buf1, tr1)"
    by (cases "operation buf tr") auto
  show ?case
  proof (cases r1)
    case None
    note op' = op[unfolded None]
    from Retry_loop_success[where operation = operation and buf = buf and tr = tr, OF op']
      less.prems success[OF op']
    show ?thesis by simp
  next
    case (Some err)
    note op' = op[unfolded Some]
    obtain nd b1 where nb: "NextBackOff E b tr1 = (nd, b1)"
      by (cases "NextBackOff E b tr1") auto
    show ?thesis
    proof (cases nd)
      case None
      from stop[OF op' nb[unfolded None]] less.prems
        Retry_loop_stop[where operation = operation and buf = buf and tr = tr, OF op' nb[unfolded None]]
      show ?thesis by simp
    next
      case (Some d)
      note nb' = nb[unfolded Some]
      show ?thesis
      proof (cases "ctx_Done E (tr1 @ [EvSleep d])")
        case True
        from cancelled[OF op' nb' True] less.prems
          Retry_loop_cancelled[where operation = operation and buf = buf and tr = tr, OF op' nb' True]
        show ?thesis by simp
      next
        case False
        have smaller: "maxTries b1 - numTries b1 < maxTries b - numTries b"
          using nb' by (auto simp: NextBackOff_def split: if_splits)
        have rec: "Retry_loop E operation b1 buf1 (tr1 @ [EvSleep d]) = out"
          using less.prems
            Retry_loop_again[where operation = operation and buf = buf and tr = tr, OF op' nb' False]
          by simp
        from again[OF op' nb' False rec less.hyps[OF smaller rec]] show ?thesis .
      qed
    qed
  qed
qed

lemma Retry_loop_shape:
  assumes op: "\<And>buf tr res rest tr'. operation buf tr = (res, rest, tr') \<Longrightarrow>
                 \<exists>a. tr' = tr @ a \<and> attempt_ok p s a"
    and run: "Retry_loop E operation b buf tr = out"
  shows "\<exists>evs. snd (snd out) = tr @ evs \<and> retry_trace_ok p s evs"
  using run
proof (induction rule: Retry_loop_rounds)
  case (success b buf tr buf1 tr1)
  from op[OF this] show ?case using attempt_alone by auto
next
  case (stop b buf tr err buf1 tr1 b1)
  from op[OF stop(1)] show ?case using attempt_alone by auto
next
  case (cancelled b buf tr err buf1 tr1 d b1)
  from op[OF cancelled(1)] show ?case using attempt_sleep by auto
next
  case (again b buf tr err buf1 tr1 d b1 out)
  from op[OF again(1)] obtain a where a: "tr1 = tr @ a" "attempt_ok p s a" by blast
  from again(5) obtain evs where "snd (snd out) = tr1 @ EvSleep d # evs" "retry_trace_ok p s evs"
    by auto
  with a attempt_more[OF a(2)] show ?case by auto
qed

section \<open>The upload protocol\<close>

text \<open>
  C1. One upload attempt begins with a probe for the slug. If the probe cannot be sent the
  attempt ends there. If the probe answers 404 the attempt makes exactly one create call
  and no update call; if it answers 200, exactly one update call and no create call; on
  any other status it makes no further call and fails with an error that carries the raw
  response body. Under the retry policy every attempt has this shape and opens with a
  probe of its own: nothing but the trace and the body reader passes from one attempt to
  the next.
\<close>

theorem upload_attempt_protocol:
  "(case deployFunction E p s eu iu v body tr of
      (res, rest, tr') \<Rightarrow>
        \<exists>evs. tr' = tr @ EvApi (V1GetAFunction p s) # evs \<and>
          (case api_reply E tr (V1GetAFunction p s) of
             Inl err \<Rightarrow> evs = [] \<and> res = Some (RetrieveError err)
           | Inr resp \<Rightarrow>
               if StatusCode resp = 404 then
                 length (filter is_create evs) = 1 \<and> length (filter is_update evs) = 0 \<and> length evs = 1
               else if StatusCode resp = 200 then
                 length (filter is_update evs) = 1 \<and> length (filter is_create evs) = 0 \<and> length evs = 1
               else evs = [] \<and> res = Some (UnexpectedError (Body resp))))
   \<and> (case backoff_Retry E (deployFunction E p s eu iu v) b body tr of
        (res, rest, tr') \<Rightarrow> \<exists>evs. tr' = tr @ evs \<and> retry_trace_ok p s evs)"
proof
  show "case deployFunction E p s eu iu v body tr of
      (res, rest, tr') \<Rightarrow>
        \<exists>evs. tr' = tr @ EvApi (V1GetAFunction p s) # evs \<and>
          (case api_reply E tr (V1GetAFunction p s) of
             Inl err \<Rightarrow> evs = [] \<and> res = Some (RetrieveError err)
           | Inr resp \<Rightarrow>
               if StatusCode resp = 404 then
                 length (filter is_create evs) = 1 \<and> length (filter is_update evs) = 0 \<and> length evs = 1
               else if StatusCode resp = 200 then
                 length (filter is_update evs) = 1 \<and> length (filter is_create evs) = 0 \<and> length evs = 1
               else evs = [] \<and> res = Some (UnexpectedError (Body resp)))"
    by (auto simp: deployFunction_def api_call_def StatusNotFound_def StatusOK_def Let_def
             split: sum.splits prod.splits)
next
  obtain res rest tr' where run: "backoff_Retry E (deployFunction E p s eu iu v) b body tr = (res, rest, tr')"
    by (cases "backoff_Retry E (deployFunction E p s eu iu v) b body tr") auto
  from Retry_loop_shape[where operation = "deployFunction E p s eu iu v" and p = p and s = s,
        OF deployFunction_attempt run[unfolded backoff_Retry_def]]
  show "case backoff_Retry E (deployFunction E p s eu iu v) b body tr of
        (res, rest, tr') \<Rightarrow> \<exists>evs. tr' = tr @ evs \<and> retry_trace_ok p s evs"
    using run by simp
qed

theorem upload_attempt_protocol_witness:
  "deployFunction env_new ''ref'' ''hello'' ''file:///f/hello/index.ts'' ''file:///f/import_map.json'' True ''EZBR'' []
     = (None, [],
        [EvApi (V1GetAFunction ''ref'' ''hello''),
         EvApi (CreateFunctionWithBody ''ref''
           \<lparr>VerifyJwt = Some True, ImportMapPath = Some ''file:///f/import_map.json'',
            EntrypointPath = Some ''file:///f/hello/index.ts'', Slug = Some ''hello'', Name = Some ''hello''\<rparr>
           eszipContentType ''EZBR'')])
   \<and> retry_trace_ok ''ref'' ''hello''
        (snd (snd (backoff_Retry env_unavailable
           (deployFunction env_unavailable ''ref'' ''hello'' ''file:///f/hello/index.ts'' ''file:///f/import_map.json'' True)
           \<lparr>maxTries = 3, numTries = 0\<rparr> ''EZBR'' [])))"
  using upload_attempt_protocol[where E = env_unavailable and p = "''ref''" and s = "''hello''"
          and eu = "''file:///f/hello/index.ts''" and iu = "''file:///f/import_map.json''" and v = True
          and body = "''EZBR''" and tr = "[]" and b = "\<lparr>maxTries = 3, numTries = 0\<rparr>"]
  by (auto simp: deployFunction_def api_call_def env_new_def env0_def scripted_def reply_def
        StatusNotFound_def StatusOK_def Let_def split: prod.splits)

text \<open>
  What one attempt sends after the probe, and how it ends, for the content \<open>body\<close> its
  body reader still holds. When the probe answers 404 the attempt sends one create request
  that carries the slug, the name (equal to the slug), verify_jwt, the import-map locator,
  the entrypoint locator and \<open>body\<close>; when the probe answers 200 it sends one update
  request with verify_jwt and the two locators, no slug or name in its parameters, and
  \<open>body\<close>. For a response of the client that was parsed by status, the attempt succeeds
  exactly when the create response is a 201 with a parsed body, or the update response a
  200 with a parsed body; any other response fails the attempt with an error that carries
  the raw response body. (A call that returns no response at all fails the attempt with
  the transport's error, see \<open>deployFunction\<close>.)
\<close>

theorem create_update_outcome:
  assumes probe: "api_reply E tr (V1GetAFunction p s) = Inr resp"
    and status: "StatusCode resp = StatusNotFound \<or> StatusCode resp = StatusOK"
    and req: "req = (if StatusCode resp = StatusNotFound
                     then CreateFunctionWithBody p
                            \<lparr>VerifyJwt = Some v, ImportMapPath = Some iu, EntrypointPath = Some eu,
                             Slug = Some s, Name = Some s\<rparr> eszipContentType body
                     else V1UpdateAFunctionWithBody p s
                            \<lparr>VerifyJwt = Some v, ImportMapPath = Some iu, EntrypointPath = Some eu\<rparr>
                            eszipContentType body)"
    and answer: "api_reply E (tr @ [EvApi (V1GetAFunction p s)]) req = Inr r"
    and parsed: "parsed_by_status r"
  shows "snd (snd (deployFunction E p s eu iu v body tr)) = tr @ [EvApi (V1GetAFunction p s), EvApi req]
       \<and> (fst (deployFunction E p s eu iu v body tr) = None) =
           (if StatusCode resp = StatusNotFound then created_ok r else updated_ok r)
       \<and> (fst (deployFunction E p s eu iu v body tr) = None \<or>
          fst (deployFunction E p s eu iu v body tr) =
            Some (if StatusCode resp = StatusNotFound then CreateFailed (Body r) else UpdateFailed (Body r)))"
  using assms
  by (cases "JSON201 r"; cases "JSON200 r")
     (auto simp: deployFunction_def api_call_def Let_def created_ok_def updated_ok_def
        parsed_by_status_def StatusNotFound_def StatusOK_def StatusCreated_def)

theorem create_update_outcome_witness:
  "api_reply env_new [] (V1GetAFunction ''ref'' ''hello'') = reply 404 ''{}''
   \<and> api_reply env_new [EvApi (V1GetAFunction ''ref'' ''hello'')]
        (CreateFunctionWithBody ''ref''
           \<lparr>VerifyJwt = Some True, ImportMapPath = Some ''file:///f/import_map.json'',
            EntrypointPath = Some ''file:///f/hello/index.ts'', Slug = Some ''hello'', Name = Some ''hello''\<rparr>
           eszipContentType ''EZBR'') = reply 201 ''{id:1}''
   \<and> parsed_by_status \<lparr>StatusCode = 201, Body = ''{id:1}'', JSON200 = None, JSON201 = Some \<lparr>Id = ''1''\<rparr>\<rparr>
   \<and> created_ok \<lparr>StatusCode = 201, Body = ''{id:1}'', JSON200 = None, JSON201 = Some \<lparr>Id = ''1''\<rparr>\<rparr>
   \<and> fst (deployFunction env_new ''ref'' ''hello'' ''file:///f/hello/index.ts''
             ''file:///f/import_map.json'' True ''EZBR'' []) = None"
  using create_update_outcome[where E = env_new and tr = "[]" and p = "''ref''" and s = "''hello''"
          and eu = "''file:///f/hello/index.ts''" and iu = "''file:///f/import_map.json''" and v = True
          and body = "''EZBR''"
          and resp = "\<lparr>StatusCode = 404, Body = ''{}'', JSON200 = None, JSON201 = None\<rparr>"
          and r = "\<lparr>StatusCode = 201, Body = ''{id:1}'', JSON200 = None, JSON201 = Some \<lparr>Id = ''1''\<rparr>\<rparr>",
          OF _ _ refl]
  by (simp add: env_new_def env0_def scripted_def reply_def parsed_by_status_def created_ok_def
        StatusNotFound_def StatusOK_def StatusCreated_def)

section \<open>Deploying a batch\<close>

text \<open>The equations that evaluate a run in a concrete environment.\<close>

lemmas eval_defs =
  deployOne_def bundleFunction_def run_bundler_def compress_eszip_def
  filepath_Join_def path_Join_def path_Clean_def filepath_Dir_def filepath_Base_def
  backoff_Retry_def Retry_loop.simps NextBackOff_def deployFunction_def api_call_def
  scripted_def reply_def env0_def compressedEszipMagicId_def eszipContentType_def
  StatusNotFound_def StatusOK_def StatusCreated_def stored_encode_def Let_def
  GetFunctionSlugs_def Run_def RunDefault_def ValidateFunctionSlug_def
  slug_pattern_spec_def slug_char_def

lemma bundleFunction_extends:
  "bundleFunction E slug imp tr = (res, tr') \<Longrightarrow> \<exists>evs. tr' = tr @ evs"
  by (auto simp: bundleFunction_def run_bundler_def compress_eszip_def Let_def
           split: sum.splits option.splits if_splits prod.splits)

lemma Retry_deployFunction_shape:
  assumes run: "Retry_loop E (deployFunction E p s eu iu v) b buf tr = out"
  shows "\<exists>evs. snd (snd out) = tr @ evs \<and> retry_trace_ok p s evs"
proof -
  have attempt: "\<And>buf tr res rest tr'. deployFunction E p s eu iu v buf tr = (res, rest, tr') \<Longrightarrow>
                  \<exists>a. tr' = tr @ a \<and> attempt_ok p s a"
    by (rule deployFunction_attempt)
  from Retry_loop_shape[where operation = "deployFunction E p s eu iu v", OF attempt run]
  show ?thesis .
qed

lemma deployOne_extends:
  assumes "deployOne E slug p imp nv tr = (res, tr')"
  shows "\<exists>evs. tr' = tr @ evs"
proof -
  let ?fc = "GetFunctionConfig E tr slug imp nv"
  obtain bres tr1 where b: "bundleFunction E slug (ImportMap ?fc) (tr @ [EvGetFunctionConfig slug]) = (bres, tr1)"
    by (cases "bundleFunction E slug (ImportMap ?fc) (tr @ [EvGetFunctionConfig slug])") auto
  from bundleFunction_extends[OF b] obtain evs1 where tr1: "tr1 = tr @ EvGetFunctionConfig slug # evs1"
    by auto
  show ?thesis
  proof (cases bres)
    case (Inl err)
    with assms b tr1 show ?thesis by (auto simp: deployOne_def Let_def)
  next
    case (Inr eszip)
    let ?op = "deployFunction E p slug (''file://'' @ entrypointPath eszip)
                 (''file://'' @ importMapPath eszip) (VerifyJWT ?fc)"
    obtain r buf tr2 where run: "Retry_loop E ?op \<lparr>maxTries = 3, numTries = 0\<rparr> (compressedBody eszip) tr1 = (r, buf, tr2)"
      by (cases "Retry_loop E ?op \<lparr>maxTries = 3, numTries = 0\<rparr> (compressedBody eszip) tr1") auto
    from Retry_deployFunction_shape[OF run]
    obtain evs2 where "tr2 = tr1 @ evs2" by auto
    with assms b tr1 Inr run show ?thesis
      by (auto simp: deployOne_def Let_def backoff_Retry_def)
  qed
qed

lemma deployAll_extends:
  "deployAll E slugs p imp nv tr = (res, tr') \<Longrightarrow> \<exists>evs. tr' = tr @ evs"
proof (induction slugs arbitrary: tr)
  case Nil
  then show ?case by simp
next
  case (Cons slug slugs)
  obtain r1 tr1 where one: "deployOne E slug p imp nv tr = (r1, tr1)"
    by (cases "deployOne E slug p imp nv tr") auto
  from deployOne_extends[OF one] obtain evs1 where tr1: "tr1 = tr @ evs1" by auto
  show ?case
  proof (cases r1)
    case None
    with Cons.prems one have "deployAll E slugs p imp nv tr1 = (res, tr')" by simp
    from Cons.IH[OF this] tr1 show ?thesis by auto
  next
    case (Some err)
    with Cons.prems one tr1 show ?thesis by auto
  qed
qed

lemma deployAll_append:
  "deployAll E (xs @ ys) p imp nv tr =
     (case deployAll E xs p imp nv tr of
        (Some err, tr1) \<Rightarrow> (Some err, tr1)
      | (None, tr1) \<Rightarrow> deployAll E ys p imp nv tr1)"
  by (induction xs arbitrary: tr) (auto split: prod.splits option.splits)

text \<open>
  C3. \<open>deployAll\<close> takes the slugs one after the other in the order given. If the
  slugs before \<open>s\<close> all deploy and \<open>deployOne\<close> fails for \<open>s\<close> (its retries used
  up), \<open>deployAll\<close> returns that error with the trace as \<open>deployOne\<close> left it: the
  slugs after \<open>s\<close> are never attempted, and the trace of the earlier slugs is kept as
  it was, nothing is undone. If the slugs before \<open>s\<close> deploy and \<open>s\<close> deploys, so does
  the list up to \<open>s\<close>; the empty list succeeds.
\<close>

theorem deployAll_sequential:
  "(deployAll E pre p imp nv tr = (None, trA) \<and> deployOne E s p imp nv trA = (Some err, trB)
      \<longrightarrow> deployAll E (pre @ s # post) p imp nv tr = (Some err, trB)
          \<and> (\<exists>evs1 evs2. trA = tr @ evs1 \<and> trB = trA @ evs2))
   \<and> (deployAll E pre p imp nv tr = (None, trA) \<and> deployOne E s p imp nv trA = (None, trB)
      \<longrightarrow> deployAll E (pre @ [s]) p imp nv tr = (None, trB))
   \<and> deployAll E [] p imp nv tr = (None, tr)"
  using deployAll_extends[of E pre p imp nv tr None trA] deployOne_extends[of E s p imp nv trA "Some err" trB]
  by (auto simp: deployAll_append)

theorem deployAll_sequential_witness:
  "fst (deployAll env_flaky [''a''] ''ref'' [] None []) = None
   \<and> fst (deployOne env_flaky ''b'' ''ref'' [] None (snd (deployAll env_flaky [''a''] ''ref'' [] None [])))
       = Some (RetrieveError ''connection refused'')
   \<and> deployAll env_flaky ([''a''] @ ''b'' # [''c'']) ''ref'' [] None []
       = (Some (RetrieveError ''connection refused''),
          snd (deployOne env_flaky ''b'' ''ref'' [] None (snd (deployAll env_flaky [''a''] ''ref'' [] None []))))"
proof -
  have a: "fst (deployAll env_flaky [''a''] ''ref'' [] None []) = None"
    by (simp add: eval_defs env_flaky_def)
  have b: "fst (deployOne env_flaky ''b'' ''ref'' [] None (snd (deployAll env_flaky [''a''] ''ref'' [] None [])))
       = Some (RetrieveError ''connection refused'')"
    by (simp add: eval_defs env_flaky_def)
  from a have a': "deployAll env_flaky [''a''] ''ref'' [] None []
              = (None, snd (deployAll env_flaky [''a''] ''ref'' [] None []))"
    by (simp add: prod_eq_iff)
  from b have b': "deployOne env_flaky ''b'' ''ref'' [] None (snd (deployAll env_flaky [''a''] ''ref'' [] None []))
              = (Some (RetrieveError ''connection refused''),
                 snd (deployOne env_flaky ''b'' ''ref'' [] None (snd (deployAll env_flaky [''a''] ''ref'' [] None []))))"
    by (simp add: prod_eq_iff)
  from deployAll_sequential[where E = env_flaky and pre = "[''a'']" and s = "''b''" and post = "[''c'']"
         and p = "''ref''" and imp = "[]" and nv = None and tr = "[]"
         and trA = "snd (deployAll env_flaky [''a''] ''ref'' [] None [])"
         and err = "RetrieveError ''connection refused''"
         and trB = "snd (deployOne env_flaky ''b'' ''ref'' [] None (snd (deployAll env_flaky [''a''] ''ref'' [] None [])))"]
    a' b'
  have "deployAll env_flaky ([''a''] @ ''b'' # [''c'']) ''ref'' [] None []
       = (Some (RetrieveError ''connection refused''),
          snd (deployOne env_flaky ''b'' ''ref'' [] None (snd (deployAll env_flaky [''a''] ''ref'' [] None []))))"
    by blast
  with a b show ?thesis by blast
qed

section \<open>The entry points\<close>

lemma validate_slugs_invalid:
  "validate_slugs E slugs = (if list_all (FuncSlugPattern E) slugs then None else Some InvalidSlugError)"
  by (induction slugs) (auto simp: ValidateFunctionSlug_def)

text \<open>
  C6, as the spec states it, fails: \<open>Run\<close> loads the project configuration through the
  filesystem before it looks at the slugs. With the slug \<open>@\<close> the spy filesystem has
  recorded that load when the invalid-slug error is returned, and where the load fails the
  error returned is the load's, not the invalid-slug error.
\<close>

theorem Run_rejects_invalid_slug_counterexample:
  "Run env0 [''@''] ''ref'' None [] [] = (Some InvalidSlugError, [EvLoadConfigFS])
   \<and> snd (Run env0 [''@''] ''ref'' None [] []) \<noteq> []
   \<and> Run env_no_config [''@''] ''ref'' None [] [] = (Some (ConfigError ''cannot read config''), [EvLoadConfigFS])
   \<and> fst (Run env_no_config [''@''] ''ref'' None [] []) \<noteq> Some InvalidSlugError"
  by (simp add: eval_defs env_no_config_def)

text \<open>
  C6, amended. A call to \<open>Run\<close> with an explicit slug list that contains a slug failing
  the naming pattern first loads the project configuration. If the load fails the call
  returns the load's error; otherwise it fails with the invalid-slug error. Either way the
  load is the only interaction recorded: no discovery, no bundling, no network call.
\<close>

theorem Run_rejects_invalid_slug:
  assumes "\<not> list_all (FuncSlugPattern E) slugs"
  shows "Run E slugs p nv imp tr =
           (case LoadConfigFS E tr of
              Some err \<Rightarrow> (Some (ConfigError err), tr @ [EvLoadConfigFS])
            | None \<Rightarrow> (Some InvalidSlugError, tr @ [EvLoadConfigFS]))"
  using assms by (cases slugs) (auto simp: Run_def validate_slugs_invalid split: option.splits)

theorem Run_rejects_invalid_slug_witness:
  "\<not> list_all (FuncSlugPattern env0) [''hello'', ''@'', ''bye'']
   \<and> Run env0 [''hello'', ''@'', ''bye''] ''ref'' None [] [] = (Some InvalidSlugError, [EvLoadConfigFS])"
  using Run_rejects_invalid_slug[where E = env0 and slugs = "[''hello'', ''@'', ''bye'']" and p = "''ref''"
          and nv = None and imp = "[]" and tr = "[]"]
  by (simp add: env0_def slug_pattern_spec_def slug_char_def)

text \<open>
  C7, as the spec states it, fails for \<open>RunDefault\<close>: when discovery finds nothing and
  reports no error, \<open>RunDefault\<close> returns without an error.
\<close>

theorem no_functions_found_counterexample:
  "fst (GetFunctionSlugs env0 []) = Inr []
   \<and> RunDefault env0 ''ref'' [] = (None, [EvGlob ''supabase/functions/*/index.ts''])
   \<and> fst (RunDefault env0 ''ref'' []) \<noteq> Some NoFunctionsFoundError"
  by (simp add: eval_defs)

text \<open>
  C7, amended. With no explicit slugs and a discovery that yields no slug: \<open>Run\<close>, once
  the configuration is loaded, fails with the no-functions-found error; \<open>RunDefault\<close>
  returns without an error. In both cases nothing is deployed: the trace ends with the
  discovery.
\<close>

theorem no_functions_found:
  "(LoadConfigFS E tr = None \<and> fst (GetFunctionSlugs E (tr @ [EvLoadConfigFS])) = Inr []
      \<longrightarrow> Run E [] p nv imp tr =
            (Some NoFunctionsFoundError,
             tr @ [EvLoadConfigFS, EvGlob (filepath_Join [FunctionsDir E, ''*'', ''index.ts''])]))
   \<and> (fst (GetFunctionSlugs E tr) = Inr []
      \<longrightarrow> RunDefault E p tr = (None, tr @ [EvGlob (filepath_Join [FunctionsDir E, ''*'', ''index.ts''])]))"
  by (auto simp: Run_def RunDefault_def GetFunctionSlugs_def Let_def split: sum.splits)

theorem no_functions_found_witness:
  "LoadConfigFS env0 [] = None \<and> fst (GetFunctionSlugs env0 ([] @ [EvLoadConfigFS])) = Inr []
   \<and> Run env0 [] ''ref'' None [] [] =
        (Some NoFunctionsFoundError, [EvLoadConfigFS, EvGlob ''supabase/functions/*/index.ts''])
   \<and> fst (GetFunctionSlugs env0 []) = Inr []
   \<and> RunDefault env0 ''ref'' [] = (None, [EvGlob ''supabase/functions/*/index.ts''])"
  using no_functions_found[where E = env0 and tr = "[]" and p = "''ref''" and nv = None and imp = "[]"]
  by (simp add: eval_defs)

section \<open>Counting attempts\<close>




text \<open>Whatever holds of the events of every attempt and of every sleep holds of all events.\<close>

lemma Retry_loop_all:
  assumes op: "\<And>buf tr res rest tr'. operation buf tr = (res, rest, tr') \<Longrightarrow>
                 \<exists>a. tr' = tr @ a \<and> list_all Q a"
    and sleep: "\<And>d. Q (EvSleep d)"
    and run: "Retry_loop E operation b buf tr = out"
  shows "\<exists>evs. snd (snd out) = tr @ evs \<and> list_all Q evs"
  using run
proof (induction rule: Retry_loop_rounds)
  case (success b buf tr buf1 tr1)
  from op[OF this] show ?case by auto
next
  case (stop b buf tr err buf1 tr1 b1)
  from op[OF stop(1)] show ?case by auto
next
  case (cancelled b buf tr err buf1 tr1 d b1)
  from op[OF cancelled(1)] sleep show ?case by auto
next
  case (again b buf tr err buf1 tr1 d b1 out)
  from op[OF again(1)] obtain a where a: "tr1 = tr @ a" "list_all Q a" by blast
  from again(5) obtain evs where "snd (snd out) = (tr1 @ [EvSleep d]) @ evs" "list_all Q evs"
    by blast
  with a sleep[of d] show ?case by auto
qed


lemma bundleFunction_events:
  "bundleFunction E slug imp tr = (res, tr') \<Longrightarrow>
     \<exists>evs. tr' = tr @ evs \<and> filter is_api evs = [] \<and> filter is_sleep evs = []
           \<and> filter is_probe evs = [] \<and> length (filter is_bundler_run evs) \<le> 1"
  by (auto simp: bundleFunction_def run_bundler_def compress_eszip_def Let_def
           split: sum.splits option.splits if_splits prod.splits)



text \<open>What \<open>deployOne\<close> adds to the trace: the configuration lookup, the bundling, the upload.\<close>

lemma deployOne_parts:
  fixes E slug p imp nv tr
  defines "fc \<equiv> GetFunctionConfig E tr slug imp nv"
  defines "bundled \<equiv> bundleFunction E slug (ImportMap fc) (tr @ [EvGetFunctionConfig slug])"
  shows "case fst bundled of
           Inl err \<Rightarrow> deployOne E slug p imp nv tr = (Some err, snd bundled)
         | Inr eszip \<Rightarrow>
             deployOne E slug p imp nv tr =
               (case Retry_loop E
                       (deployFunction E p slug (''file://'' @ entrypointPath eszip)
                          (''file://'' @ importMapPath eszip) (VerifyJWT fc))
                       \<lparr>maxTries = 3, numTries = 0\<rparr> (compressedBody eszip) (snd bundled) of
                  (res, buf, tr2) \<Rightarrow> (res, tr2))"
  by (cases bundled) (auto simp: deployOne_def Let_def backoff_Retry_def fc_def bundled_def split: sum.splits)



text \<open>
  C2 does not hold of the code. The artifact is built once, but every attempt is handed
  the same \<open>bytes.Buffer\<close> as its body reader, and a create or update call that was
  sent has read it. Here the probe answers 404 and the create answers 503 after the body
  went out; the retry probes again, creates again, and the body it supplies is empty, not
  the artifact. The deployment is then reported as a success.
\<close>

theorem retry_sends_drained_body:
  "fst (deployOne env_flaky ''hello'' ''ref'' [] None []) = None
   \<and> length (filter is_bundler_run (snd (deployOne env_flaky ''hello'' ''ref'' [] None []))) = 1
   \<and> map sent_body (filter is_create (snd (deployOne env_flaky ''hello'' ''ref'' [] None [])))
       = [Some ''EZBRSESZIP'', Some []]"
  by (simp add: eval_defs env_flaky_def)

section \<open>The artifact\<close>

text \<open>
  C4. Brotli is a black box: \<open>brotli_encode\<close> is the encoder and \<open>decode\<close> any
  function that inverts it. Whenever \<open>bundleFunction\<close> succeeds, with \<open>X\<close> the bytes of
  the bundler's output file, the compressed body is the four-byte tag \<open>EZBR\<close> followed
  by the encoding of \<open>X\<close>: its first four bytes are the tag, and decoding what starts at
  offset 4 gives back exactly \<open>X\<close>.
\<close>

theorem artifact_container_roundtrip:
  assumes built: "bundleFunction E slug imp tr = (Inr r, tr')"
    and codec: "\<forall>x. decode (brotli_encode E x) = x"
  shows "\<exists>tr0 X. fs_Open E tr0 (filepath_Join [filepath_Join [TempDir E, ''.output_'' @ slug], ''output.eszip''])
                  = Inr (Inr X)
           \<and> compressedBody r = compressedEszipMagicId @ brotli_encode E X
           \<and> length compressedEszipMagicId = 4
           \<and> take 4 (compressedBody r) = compressedEszipMagicId
           \<and> decode (drop 4 (compressedBody r)) = X"
  using assms
  by (auto simp: bundleFunction_def run_bundler_def compress_eszip_def Let_def compressedEszipMagicId_def
           split: sum.splits option.splits if_splits prod.splits)

theorem artifact_container_roundtrip_witness:
  "fst (bundleFunction env0 ''hello'' [] []) =
      Inr \<lparr>compressedBody = ''EZBRSESZIP'',
           entrypointPath = ''/w/supabase/functions/hello/index.ts'',
           importMapPath = ''/w/supabase/functions/import_map.json''\<rparr>
   \<and> (\<forall>x. stored_decode (brotli_encode env0 x) = x)
   \<and> take 4 ''EZBRSESZIP'' = compressedEszipMagicId
   \<and> stored_decode (drop 4 ''EZBRSESZIP'') = ''ESZIP''"
proof -
  have b: "fst (bundleFunction env0 ''hello'' [] []) =
      Inr \<lparr>compressedBody = ''EZBRSESZIP'',
           entrypointPath = ''/w/supabase/functions/hello/index.ts'',
           importMapPath = ''/w/supabase/functions/import_map.json''\<rparr>"
    by (simp add: eval_defs)
  then have b': "bundleFunction env0 ''hello'' [] [] =
      (Inr \<lparr>compressedBody = ''EZBRSESZIP'',
           entrypointPath = ''/w/supabase/functions/hello/index.ts'',
           importMapPath = ''/w/supabase/functions/import_map.json''\<rparr>,
       snd (bundleFunction env0 ''hello'' [] []))"
    by (simp add: prod_eq_iff)
  have c: "\<forall>x. stored_decode (brotli_encode env0 x) = x"
    by (simp add: env0_def stored_decode_def stored_encode_def)
  from artifact_container_roundtrip[OF b' c] b c show ?thesis
    by (simp add: compressedEszipMagicId_def stored_decode_def)
qed

section \<open>Paths of the source tree\<close>

lemma split_path_nonempty [simp]: "split_path p \<noteq> []"
  by (induction p) (auto split: list.splits)

lemma split_path_no_slash: "CHR ''/'' \<notin> set x \<Longrightarrow> split_path x = [x]"
  by (induction x) auto

lemma split_path_append: "CHR ''/'' \<notin> set x \<Longrightarrow> split_path (x @ CHR ''/'' # rest) = x # split_path rest"
  by (induction x) auto

lemma join_split: "join_path (split_path p) = p"
proof (induction p)
  case Nil
  then show ?case by simp
next
  case (Cons c cs)
  show ?case
  proof (cases "c = CHR ''/''")
    case True
    with Cons show ?thesis by (cases "split_path cs") auto
  next
    case False
    obtain x xs where sp: "split_path cs = x # xs" by (cases "split_path cs") auto
    with Cons False show ?thesis by (cases xs) auto
  qed
qed

lemma split_join:
  "ns \<noteq> [] \<Longrightarrow> list_all (\<lambda>n. CHR ''/'' \<notin> set n) ns \<Longrightarrow> split_path (join_path ns) = ns"
proof (induction ns rule: join_path.induct)
  case 1
  then show ?case by simp
next
  case (2 x)
  then show ?case by (simp add: split_path_no_slash)
next
  case (3 x y zs)
  then show ?case by (simp add: split_path_append)
qed

lemma join_path_snoc: "ns \<noteq> [] \<Longrightarrow> join_path (ns @ [x]) = join_path ns @ CHR ''/'' # x"
  by (induction ns rule: join_path.induct) auto

lemma resolve_plain: "list_all plain_name ns \<Longrightarrow> resolve_dots rooted acc ns = acc @ ns"
  by (induction ns arbitrary: acc) (auto simp: plain_name_def)

lemma resolve_plain_trailing:
  "list_all plain_name ns \<Longrightarrow> resolve_dots rooted acc (ns @ [[]]) = acc @ ns"
  by (induction ns arbitrary: acc) (auto simp: plain_name_def)

lemma clean_pathD:
  assumes "clean_path d"
  obtains pre ns where "d = pre @ join_path ns" "pre = [] \<or> pre = ''/''" "ns \<noteq> []"
    "list_all plain_name ns" "(pre = ''/'') = (hd d = CHR ''/'')" "d \<noteq> []"
proof (cases d)
  case Nil
  with assms show ?thesis by (simp add: clean_path_def)
next
  case (Cons c cs)
  show ?thesis
  proof (cases "c = CHR ''/''")
    case True
    with Cons assms have "list_all plain_name (split_path cs)" by (simp add: clean_path_def)
    moreover have "d = ''/'' @ join_path (split_path cs)" using Cons True by (simp add: join_split)
    ultimately show ?thesis using that[of "''/''" "split_path cs"] Cons True by simp
  next
    case False
    have pl: "list_all plain_name (split_path d)"
      using Cons False assms by (simp add: clean_path_def del: split_path.simps)
    have hd: "hd d \<noteq> CHR ''/''" "d \<noteq> []" using Cons False by auto
    show ?thesis
    proof (rule that[of "[]" "split_path d"])
      show "d = [] @ join_path (split_path d)" by (simp add: join_split)
      show "([] = ''/'') = (hd d = CHR ''/'')" using hd by simp
    qed (use pl hd in simp_all)
  qed
qed

lemma plain_no_slash: "list_all plain_name ns \<Longrightarrow> list_all (\<lambda>n. CHR ''/'' \<notin> set n) ns"
  by (induction ns) (auto simp: plain_name_def)

lemma hd_plain: "plain_name x \<Longrightarrow> hd x \<noteq> CHR ''/''"
  by (cases x) (auto simp: plain_name_def)

lemma hd_join_plain: "ns \<noteq> [] \<Longrightarrow> list_all plain_name ns \<Longrightarrow> hd (join_path ns) \<noteq> CHR ''/'' \<and> join_path ns \<noteq> []"
proof (induction ns rule: join_path.induct)
  case 1
  then show ?case by simp
next
  case (2 x)
  then show ?case using hd_plain[of x] by (auto simp: plain_name_def)
next
  case (3 x y zs)
  then have "plain_name x" by simp
  then show ?case using hd_plain[of x] by (cases x) (auto simp: plain_name_def)
qed

text \<open>A clean path followed by plain names is left as it is by \<open>Clean\<close>.\<close>

lemma path_Clean_plain:
  assumes "pre = [] \<or> pre = ''/''" "ns \<noteq> []" "list_all plain_name ns"
  shows "path_Clean (pre @ join_path ns) = pre @ join_path ns"
proof -
  from hd_join_plain[OF assms(2,3)] have h: "hd (join_path ns) \<noteq> CHR ''/''" "join_path ns \<noteq> []" by auto
  from split_join[OF assms(2) plain_no_slash[OF assms(3)]] have sj: "split_path (join_path ns) = ns" .
  from assms(1) show ?thesis
  proof
    assume "pre = []"
    with h sj assms show ?thesis by (simp add: path_Clean_def resolve_plain)
  next
    assume "pre = ''/''"
    with h sj assms show ?thesis by (simp add: path_Clean_def resolve_plain)
  qed
qed

lemma path_Clean_plain_trailing:
  assumes "pre = [] \<or> pre = ''/''" "ns \<noteq> []" "list_all plain_name ns"
  shows "path_Clean (pre @ join_path ns @ ''/'') = pre @ join_path ns"
proof -
  from hd_join_plain[OF assms(2,3)] have h: "hd (join_path ns) \<noteq> CHR ''/''" "join_path ns \<noteq> []" by auto
  have "join_path ns @ ''/'' = join_path (ns @ [[]])" using assms(2) by (simp add: join_path_snoc)
  moreover have "split_path (join_path (ns @ [[]])) = ns @ [[]]"
    using split_join[of "ns @ [[]]"] plain_no_slash[OF assms(3)] by simp
  ultimately have sj: "split_path (join_path ns @ ''/'') = ns @ [[]]" by simp
  from assms(1) show ?thesis
  proof
    assume "pre = []"
    with h sj assms show ?thesis by (simp add: path_Clean_def resolve_plain_trailing)
  next
    assume "pre = ''/''"
    with h sj assms show ?thesis by (simp add: path_Clean_def resolve_plain_trailing)
  qed
qed

lemma path_Join_clean:
  assumes "clean_path d" "list_all plain_name xs"
  shows "path_Join (d # xs) = join_path (d # xs)"
proof -
  from assms(1) obtain pre ns where d: "d = pre @ join_path ns" "pre = [] \<or> pre = ''/''" "ns \<noteq> []"
    "list_all plain_name ns" "d \<noteq> []" by (rule clean_pathD)
  have ne: "filter (\<lambda>e. e \<noteq> []) (d # xs) = d # xs"
    using d(5) assms(2) by (induction xs) (auto simp: plain_name_def)
  have "join_path (d # xs) = pre @ join_path (ns @ xs)"
    using d(1,3)
  proof (induction xs rule: rev_induct)
    case Nil
    then show ?case by simp
  next
    case (snoc x xs)
    then show ?case
      using join_path_snoc[of "d # xs" x] join_path_snoc[of "ns @ xs" x] by simp
  qed
  moreover have "path_Clean (pre @ join_path (ns @ xs)) = pre @ join_path (ns @ xs)"
    using path_Clean_plain[OF d(2), of "ns @ xs"] d(3,4) assms(2) by simp
  ultimately show ?thesis using ne by (simp add: path_Join_def)
qed

lemma takeWhile_until: "\<forall>x \<in> set xs. P x \<Longrightarrow> \<not> P y \<Longrightarrow> takeWhile P (xs @ y # ys) = xs"
  by (induction xs) auto

lemma dropWhile_until: "\<forall>x \<in> set xs. P x \<Longrightarrow> \<not> P y \<Longrightarrow> dropWhile P (xs @ y # ys) = y # ys"
  by (induction xs) auto

lemma filepath_Dir_entry:
  assumes "clean_path d" "plain_name n" "plain_name f"
  shows "filepath_Dir (d @ CHR ''/'' # n @ CHR ''/'' # f) = d @ CHR ''/'' # n"
proof -
  from assms(1) obtain pre ns where d: "d = pre @ join_path ns" "pre = [] \<or> pre = ''/''" "ns \<noteq> []"
    "list_all plain_name ns" by (rule clean_pathD)
  have f: "\<forall>c \<in> set (rev f). c \<noteq> CHR ''/''" using assms(3) by (auto simp: plain_name_def)
  have "dropWhile (\<lambda>c. c \<noteq> CHR ''/'') (rev f @ CHR ''/'' # rev n @ CHR ''/'' # rev d)
          = CHR ''/'' # rev n @ CHR ''/'' # rev d"
    using f by (intro dropWhile_until) auto
  then have cut: "rev (dropWhile (\<lambda>c. c \<noteq> CHR ''/'') (rev (d @ CHR ''/'' # n @ CHR ''/'' # f)))
          = d @ CHR ''/'' # n @ ''/''" by simp
  have shape: "d @ CHR ''/'' # n = pre @ join_path (ns @ [n])"
    using d(1,3) by (simp add: join_path_snoc)
  have "filepath_Dir (d @ CHR ''/'' # n @ CHR ''/'' # f) = path_Clean (d @ CHR ''/'' # n @ ''/'')"
    unfolding filepath_Dir_def cut ..
  also have "d @ CHR ''/'' # n @ ''/'' = pre @ join_path (ns @ [n]) @ ''/''"
    using shape by simp
  also have "path_Clean (pre @ join_path (ns @ [n]) @ ''/'') = pre @ join_path (ns @ [n])"
    using path_Clean_plain_trailing[OF d(2), of "ns @ [n]"] d(4) assms(2) by simp
  also have "\<dots> = d @ CHR ''/'' # n" using shape by simp
  finally show ?thesis .
qed

lemma filepath_Base_entry:
  assumes "plain_name n"
  shows "filepath_Base (d @ CHR ''/'' # n) = n"
proof -
  from assms have "n \<noteq> []" by (simp add: plain_name_def)
  then obtain x xs where rn: "rev n = x # xs" by (cases "rev n") auto
  then have "x \<in> set n" by (metis list.set_intros(1) set_rev)
  with assms have x: "x \<noteq> CHR ''/''" by (auto simp: plain_name_def)
  have n: "\<forall>c \<in> set (rev n). c \<noteq> CHR ''/''" using assms by (auto simp: plain_name_def)
  have "dropWhile (\<lambda>c. c = CHR ''/'') (rev (d @ CHR ''/'' # n)) = rev n @ CHR ''/'' # rev d"
    using rn x by simp
  moreover have "takeWhile (\<lambda>c. c \<noteq> CHR ''/'') (rev n @ CHR ''/'' # rev d) = rev n"
    using n by (intro takeWhile_until) auto
  ultimately show ?thesis using \<open>n \<noteq> []\<close> by (simp add: filepath_Base_def Let_def)
qed

lemma slug_of_entry:
  assumes "clean_path d" "plain_name n"
  shows "filepath_Base (filepath_Dir (d @ CHR ''/'' # n @ ''/index.ts'')) = n"
proof -
  have "plain_name ''index.ts''" by (simp add: plain_name_def)
  from filepath_Dir_entry[OF assms this] filepath_Base_entry[OF assms(2), of d]
  show ?thesis by simp
qed

lemma slugs_of_entries:
  "clean_path d \<Longrightarrow> list_all plain_name names \<Longrightarrow>
     map (\<lambda>p. filepath_Base (filepath_Dir p)) (map (\<lambda>n. d @ ''/'' @ n @ ''/index.ts'') names) = names"
  by (induction names) (simp_all add: slug_of_entry)

lemma glob_pattern_clean:
  assumes "clean_path d"
  shows "filepath_Join [d, ''*'', ''index.ts''] = d @ ''/*/index.ts''"
  using path_Join_clean[OF assms, of "[''*'', ''index.ts'']"]
  by (simp add: filepath_Join_def plain_name_def)

text \<open>
  C9. Discovery: for a source tree whose function directory is a clean path and holds the
  entries \<open>names\<close> with an \<open>index.ts\<close> each (the paths the glob returns),
  \<open>GetFunctionSlugs\<close> returns, without an error and in the glob's order, exactly those
  names that match the naming pattern; a name that does not match is skipped. Validation:
  \<open>Run\<close> with explicit slugs (the configuration loaded) deploys the list as given if
  every slug matches the same pattern and otherwise fails with the invalid-slug error
  before anything is deployed; the check stops at the first slug that fails, whatever
  follows it.
\<close>

theorem slug_discovery_and_validation:
  "(clean_path (FunctionsDir E) \<and> list_all plain_name names
      \<and> afero_Glob E tr (FunctionsDir E @ ''/*/index.ts'')
          = Inr (map (\<lambda>n. FunctionsDir E @ ''/'' @ n @ ''/index.ts'') names)
      \<longrightarrow> GetFunctionSlugs E tr
            = (Inr (filter (FuncSlugPattern E) names), tr @ [EvGlob (FunctionsDir E @ ''/*/index.ts'')]))
   \<and> (slugs \<noteq> [] \<and> LoadConfigFS E tr = None
      \<longrightarrow> Run E slugs p nv imp tr
            = (if list_all (FuncSlugPattern E) slugs
               then deployAll E slugs p imp nv (tr @ [EvLoadConfigFS])
               else (Some InvalidSlugError, tr @ [EvLoadConfigFS])))
   \<and> (list_all (FuncSlugPattern E) pre \<and> \<not> FuncSlugPattern E s
      \<longrightarrow> validate_slugs E pre = None \<and> validate_slugs E (pre @ s # post) = Some InvalidSlugError)"
proof (intro conjI impI)
  assume a: "clean_path (FunctionsDir E) \<and> list_all plain_name names
      \<and> afero_Glob E tr (FunctionsDir E @ ''/*/index.ts'')
          = Inr (map (\<lambda>n. FunctionsDir E @ ''/'' @ n @ ''/index.ts'') names)"
  then have "map (\<lambda>p. filepath_Base (filepath_Dir p))
               (map (\<lambda>n. FunctionsDir E @ ''/'' @ n @ ''/index.ts'') names) = names"
    by (intro slugs_of_entries) auto
  with a show "GetFunctionSlugs E tr
            = (Inr (filter (FuncSlugPattern E) names), tr @ [EvGlob (FunctionsDir E @ ''/*/index.ts'')])"
    by (simp add: GetFunctionSlugs_def glob_pattern_clean Let_def)
next
  assume "slugs \<noteq> [] \<and> LoadConfigFS E tr = None"
  then show "Run E slugs p nv imp tr
            = (if list_all (FuncSlugPattern E) slugs
               then deployAll E slugs p imp nv (tr @ [EvLoadConfigFS])
               else (Some InvalidSlugError, tr @ [EvLoadConfigFS]))"
    by (auto simp: Run_def validate_slugs_invalid)
next
  assume "list_all (FuncSlugPattern E) pre \<and> \<not> FuncSlugPattern E s"
  then show "validate_slugs E pre = None" by (simp add: validate_slugs_invalid)
next
  assume "list_all (FuncSlugPattern E) pre \<and> \<not> FuncSlugPattern E s"
  then show "validate_slugs E (pre @ s # post) = Some InvalidSlugError"
    by (simp add: validate_slugs_invalid)
qed

theorem slug_discovery_and_validation_witness:
  "clean_path (FunctionsDir env_tree) \<and> list_all plain_name [''a.b'', ''bye'', ''hello'']
   \<and> afero_Glob env_tree [] (FunctionsDir env_tree @ ''/*/index.ts'')
       = Inr (map (\<lambda>n. FunctionsDir env_tree @ ''/'' @ n @ ''/index.ts'') [''a.b'', ''bye'', ''hello''])
   \<and> GetFunctionSlugs env_tree [] = (Inr [''bye'', ''hello''], [EvGlob ''supabase/functions/*/index.ts''])
   \<and> [''hello'', ''@'', ''bye''] \<noteq> [] \<and> LoadConfigFS env_tree [] = None
   \<and> Run env_tree [''hello'', ''@'', ''bye''] ''ref'' None [] [] = (Some InvalidSlugError, [EvLoadConfigFS])
   \<and> list_all (FuncSlugPattern env_tree) [''hello''] \<and> \<not> FuncSlugPattern env_tree ''@''
   \<and> validate_slugs env_tree ([''hello''] @ ''@'' # [''bye'']) = Some InvalidSlugError"
  using slug_discovery_and_validation[where E = env_tree and names = "[''a.b'', ''bye'', ''hello'']"
          and tr = "[]" and slugs = "[''hello'', ''@'', ''bye'']" and p = "''ref''" and nv = None
          and imp = "[]" and pre = "[''hello'']" and s = "''@''" and post = "[''bye'']"]
  by (simp add: env_tree_def env0_def clean_path_def plain_name_def slug_pattern_spec_def slug_char_def)

section \<open>The import-map locator\<close>

lemma write_is_api: "is_create e \<or> is_update e \<Longrightarrow> is_api e"
  by (cases e rule: is_api.cases) auto

lemma no_api_no_write: "filter is_api evs = [] \<Longrightarrow> \<forall>e \<in> set evs. \<not> (is_create e \<or> is_update e)"
  using write_is_api by (auto simp: filter_empty_conv)

lemma deployFunction_import_map:
  "deployFunction E p s eu iu v body tr = (res, rest, tr') \<Longrightarrow>
     \<exists>a. tr' = tr @ a \<and> list_all (\<lambda>e. \<not> (is_create e \<or> is_update e) \<or> sent_import_map e = Some iu) a"
  by (auto simp: deployFunction_def api_call_def Let_def
           split: sum.splits if_splits prod.splits)

lemma Retry_deployFunction_import_map:
  assumes run: "Retry_loop E (deployFunction E p s eu iu v) b buf tr = out"
  shows "\<exists>evs. snd (snd out) = tr @ evs
           \<and> list_all (\<lambda>e. \<not> (is_create e \<or> is_update e) \<or> sent_import_map e = Some iu) evs"
proof -
  have attempt: "\<And>buf tr res rest tr'. deployFunction E p s eu iu v buf tr = (res, rest, tr') \<Longrightarrow>
      \<exists>a. tr' = tr @ a \<and> list_all (\<lambda>e. \<not> (is_create e \<or> is_update e) \<or> sent_import_map e = Some iu) a"
    by (rule deployFunction_import_map)
  have sleep: "\<And>d. \<not> (is_create (EvSleep d) \<or> is_update (EvSleep d)) \<or> sent_import_map (EvSleep d) = Some iu"
    by simp
  from Retry_loop_all[where operation = "deployFunction E p s eu iu v"
         and Q = "\<lambda>e. \<not> (is_create e \<or> is_update e) \<or> sent_import_map e = Some iu",
         OF attempt sleep run]
  show ?thesis .
qed

lemma bundleFunction_default_paths:
  assumes "bundleFunction E slug [] tr = (Inr r, tr')" "os_Getwd E tr = Inr cwd"
  shows "importMapPath r = path_Join [ToDockerPath E (filepath_Join [cwd, FunctionsDir E]), ''import_map.json'']
       \<and> entrypointPath r = path_Join [ToDockerPath E (filepath_Join [cwd, FunctionsDir E]), slug, ''index.ts'']"
  using assms
  by (auto simp: bundleFunction_def run_bundler_def compress_eszip_def Let_def
           split: sum.splits option.splits if_splits prod.splits)

lemma default_paths_clean:
  assumes "clean_path d" "plain_name slug"
  shows "path_Join [d, ''import_map.json''] = d @ ''/import_map.json''
       \<and> path_Join [d, slug, ''index.ts''] = d @ ''/'' @ slug @ ''/index.ts''"
  using path_Join_clean[OF assms(1), of "[''import_map.json'']"]
        path_Join_clean[OF assms(1), of "[slug, ''index.ts'']"] assms(2)
  by (simp add: plain_name_def)

text \<open>The import-map locator every create and update call of \<open>deployOne\<close> carries.\<close>

lemma deployOne_import_map:
  fixes E slug p imp nv tr
  defines "bundled \<equiv> bundleFunction E slug (ImportMap (GetFunctionConfig E tr slug imp nv))
                        (tr @ [EvGetFunctionConfig slug])"
  shows "\<exists>evs. snd (deployOne E slug p imp nv tr) = tr @ evs
           \<and> (\<forall>e \<in> set evs. is_create e \<or> is_update e \<longrightarrow>
                (\<exists>r. fst bundled = Inr r \<and> sent_import_map e = Some (''file://'' @ importMapPath r)))"
proof -
  define fc where "fc = GetFunctionConfig E tr slug imp nv"
  define tr0 where "tr0 = tr @ [EvGetFunctionConfig slug]"
  obtain bres tr1 where b: "bundleFunction E slug (ImportMap fc) tr0 = (bres, tr1)"
    by (cases "bundleFunction E slug (ImportMap fc) tr0") auto
  from bundleFunction_events[OF b] obtain bevs where bevs: "tr1 = tr0 @ bevs" "filter is_api bevs = []"
    by blast
  note nw = no_api_no_write[OF bevs(2)]
  note parts = deployOne_parts[of E slug p imp nv tr, folded fc_def tr0_def, unfolded b]
  have bd: "bundled = (bres, tr1)" using b by (simp add: bundled_def fc_def tr0_def)
  show ?thesis
  proof (cases bres)
    case (Inl err)
    with parts have one: "deployOne E slug p imp nv tr = (Some err, tr1)" by simp
    have "snd (deployOne E slug p imp nv tr) = tr @ (EvGetFunctionConfig slug # bevs)"
      using one bevs(1) by (simp add: tr0_def)
    then show ?thesis using nw by auto
  next
    case (Inr eszip)
    let ?op = "deployFunction E p slug (''file://'' @ entrypointPath eszip)
                 (''file://'' @ importMapPath eszip) (VerifyJWT fc)"
    obtain r buf tr2 where run:
      "Retry_loop E ?op \<lparr>maxTries = 3, numTries = 0\<rparr> (compressedBody eszip) tr1 = (r, buf, tr2)"
      by (cases "Retry_loop E ?op \<lparr>maxTries = 3, numTries = 0\<rparr> (compressedBody eszip) tr1") auto
    from parts Inr run have one: "deployOne E slug p imp nv tr = (r, tr2)" by simp
    from Retry_deployFunction_import_map[OF run] obtain uevs where
      uevs: "tr2 = tr1 @ uevs"
        "list_all (\<lambda>e. \<not> (is_create e \<or> is_update e) \<or> sent_import_map e = Some (''file://'' @ importMapPath eszip)) uevs"
      by auto
    have "snd (deployOne E slug p imp nv tr) = tr @ ((EvGetFunctionConfig slug # bevs) @ uevs)"
      using one bevs(1) uevs(1) by (simp add: tr0_def)
    moreover have "\<forall>e \<in> set ((EvGetFunctionConfig slug # bevs) @ uevs). is_create e \<or> is_update e \<longrightarrow>
                (\<exists>r. fst bundled = Inr r \<and> sent_import_map e = Some (''file://'' @ importMapPath r))"
      using nw uevs(2) bd Inr by (auto simp: list_all_iff)
    ultimately show ?thesis by blast
  qed
qed

text \<open>
  C10. Every create and every update call of \<open>deployOne\<close> carries an import-map locator,
  and it is \<open>file://\<close> followed by the artifact's import-map path: never absent, never
  empty, whether or not an import map was configured. With no import-map override (the
  function's configuration names none), a working directory whose function directory the
  container sees at the clean path \<open>d\<close>, and a slug that is a plain name, that locator is
  \<open>file://d/import_map.json\<close>; and a bundle built with no override has the import-map
  path \<open>d/import_map.json\<close> and the entrypoint path \<open>d/slug/index.ts\<close>. Nothing in
  the bundling looks for an import-map file on the local filesystem in that case.
\<close>

theorem import_map_locator:
  "(\<exists>evs. snd (deployOne E slug p imp nv tr) = tr @ evs
       \<and> (\<forall>e \<in> set evs. is_create e \<or> is_update e \<longrightarrow>
            (\<exists>u. sent_import_map e = Some (''file://'' @ u))))
   \<and> (ImportMap (GetFunctionConfig E tr slug imp nv) = []
        \<and> os_Getwd E (tr @ [EvGetFunctionConfig slug]) = Inr cwd
        \<and> clean_path (ToDockerPath E (filepath_Join [cwd, FunctionsDir E])) \<and> plain_name slug
      \<longrightarrow> (\<exists>evs. snd (deployOne E slug p imp nv tr) = tr @ evs
            \<and> (\<forall>e \<in> set evs. is_create e \<or> is_update e \<longrightarrow>
                 sent_import_map e
                   = Some (''file://'' @ ToDockerPath E (filepath_Join [cwd, FunctionsDir E]) @ ''/import_map.json''))))
   \<and> (bundleFunction E slug [] tr = (Inr r, tr') \<and> os_Getwd E tr = Inr cwd
        \<and> clean_path (ToDockerPath E (filepath_Join [cwd, FunctionsDir E])) \<and> plain_name slug
      \<longrightarrow> importMapPath r = ToDockerPath E (filepath_Join [cwd, FunctionsDir E]) @ ''/import_map.json''
          \<and> entrypointPath r
              = ToDockerPath E (filepath_Join [cwd, FunctionsDir E]) @ ''/'' @ slug @ ''/index.ts'')"
proof (intro conjI impI)
  from deployOne_import_map[of E slug p imp nv tr]
  show "\<exists>evs. snd (deployOne E slug p imp nv tr) = tr @ evs
       \<and> (\<forall>e \<in> set evs. is_create e \<or> is_update e \<longrightarrow>
            (\<exists>u. sent_import_map e = Some (''file://'' @ u)))"
    by blast
next
  let ?d = "ToDockerPath E (filepath_Join [cwd, FunctionsDir E])"
  assume a: "ImportMap (GetFunctionConfig E tr slug imp nv) = []
        \<and> os_Getwd E (tr @ [EvGetFunctionConfig slug]) = Inr cwd
        \<and> clean_path ?d \<and> plain_name slug"
  from deployOne_import_map[of E slug p imp nv tr] obtain evs where
    evs: "snd (deployOne E slug p imp nv tr) = tr @ evs"
      "\<forall>e \<in> set evs. is_create e \<or> is_update e \<longrightarrow>
         (\<exists>r. fst (bundleFunction E slug (ImportMap (GetFunctionConfig E tr slug imp nv))
                     (tr @ [EvGetFunctionConfig slug])) = Inr r
              \<and> sent_import_map e = Some (''file://'' @ importMapPath r))"
    by blast
  have "\<forall>e \<in> set evs. is_create e \<or> is_update e \<longrightarrow>
          sent_import_map e = Some (''file://'' @ ?d @ ''/import_map.json'')"
  proof (intro ballI impI)
    fix e assume "e \<in> set evs" "is_create e \<or> is_update e"
    with evs(2) a obtain r where r: "fst (bundleFunction E slug [] (tr @ [EvGetFunctionConfig slug])) = Inr r"
        "sent_import_map e = Some (''file://'' @ importMapPath r)" by auto
    from r(1) have "bundleFunction E slug [] (tr @ [EvGetFunctionConfig slug])
                      = (Inr r, snd (bundleFunction E slug [] (tr @ [EvGetFunctionConfig slug])))"
      by (simp add: prod_eq_iff)
    from bundleFunction_default_paths[OF this] a default_paths_clean[of ?d slug] r(2)
    show "sent_import_map e = Some (''file://'' @ ?d @ ''/import_map.json'')" by simp
  qed
  with evs(1) show "\<exists>evs. snd (deployOne E slug p imp nv tr) = tr @ evs
            \<and> (\<forall>e \<in> set evs. is_create e \<or> is_update e \<longrightarrow>
                 sent_import_map e = Some (''file://'' @ ?d @ ''/import_map.json''))"
    by blast
next
  let ?d = "ToDockerPath E (filepath_Join [cwd, FunctionsDir E])"
  assume a: "bundleFunction E slug [] tr = (Inr r, tr') \<and> os_Getwd E tr = Inr cwd
        \<and> clean_path ?d \<and> plain_name slug"
  with bundleFunction_default_paths[of E slug tr r tr' cwd] default_paths_clean[of ?d slug]
  show "importMapPath r = ?d @ ''/import_map.json''" by simp
next
  let ?d = "ToDockerPath E (filepath_Join [cwd, FunctionsDir E])"
  assume a: "bundleFunction E slug [] tr = (Inr r, tr') \<and> os_Getwd E tr = Inr cwd
        \<and> clean_path ?d \<and> plain_name slug"
  with bundleFunction_default_paths[of E slug tr r tr' cwd] default_paths_clean[of ?d slug]
  show "entrypointPath r = ?d @ ''/'' @ slug @ ''/index.ts''" by simp
qed

theorem import_map_locator_witness:
  "ImportMap (GetFunctionConfig env_new [] ''hello'' [] None) = []
   \<and> os_Getwd env_new ([] @ [EvGetFunctionConfig ''hello'']) = Inr ''/w''
   \<and> clean_path (ToDockerPath env_new (filepath_Join [''/w'', FunctionsDir env_new]))
   \<and> plain_name ''hello''
   \<and> map sent_import_map (filter is_create (snd (deployOne env_new ''hello'' ''ref'' [] None [])))
       = [Some ''file:///w/supabase/functions/import_map.json'']
   \<and> fst (bundleFunction env_new ''hello'' [] []) =
       Inr \<lparr>compressedBody = ''EZBRSESZIP'',
            entrypointPath = ''/w/supabase/functions/hello/index.ts'',
            importMapPath = ''/w/supabase/functions/import_map.json''\<rparr>"
  using import_map_locator[where E = env_new and slug = "''hello''" and p = "''ref''" and imp = "[]"
          and nv = None and tr = "[]" and cwd = "''/w''"]
  by (simp add: eval_defs env_new_def clean_path_def plain_name_def)

section \<open>The request of a retried attempt\<close>

text \<open>
  C8 does not hold of the code for every upload attempt. The metadata of each request is
  as the claim says, and the outcome follows the response as it says, but the body of a
  request is what the shared \<open>bytes.Buffer\<close> still holds, and that is the artifact only
  until a create or update call has been sent. Here the function exists: the probe
  answers 200, the first update carries the artifact and is answered 503; the retry
  probes again and sends an update with the same parameters and an empty body, which is
  answered 200 and reported as a success. (The create path does the same, see
  \<open>env_flaky\<close>.)
\<close>

theorem retry_request_without_artifact:
  "fst (bundleFunction env_flaky_update ''hello'' [] [EvGetFunctionConfig ''hello'']) =
       Inr \<lparr>compressedBody = ''EZBRSESZIP'',
            entrypointPath = ''/w/supabase/functions/hello/index.ts'',
            importMapPath = ''/w/supabase/functions/import_map.json''\<rparr>
   \<and> fst (deployOne env_flaky_update ''hello'' ''ref'' [] None []) = None
   \<and> filter is_api (snd (deployOne env_flaky_update ''hello'' ''ref'' [] None [])) =
       [EvApi (V1GetAFunction ''ref'' ''hello''),
        EvApi (V1UpdateAFunctionWithBody ''ref'' ''hello''
          \<lparr>VerifyJwt = Some True,
           ImportMapPath = Some ''file:///w/supabase/functions/import_map.json'',
           EntrypointPath = Some ''file:///w/supabase/functions/hello/index.ts''\<rparr>
          ''application/vnd.denoland.eszip'' ''EZBRSESZIP''),
        EvApi (V1GetAFunction ''ref'' ''hello''),
        EvApi (V1UpdateAFunctionWithBody ''ref'' ''hello''
          \<lparr>VerifyJwt = Some True,
           ImportMapPath = Some ''file:///w/supabase/functions/import_map.json'',
           EntrypointPath = Some ''file:///w/supabase/functions/hello/index.ts''\<rparr>
          ''application/vnd.denoland.eszip'' [])]"
  by (simp add: eval_defs env_flaky_update_def)

end
